theory Spec2Isabelle
  imports Main "HOL-Library.Word"
begin

unbundle bit_operations_syntax

section \<open>Data model\<close>

text \<open>
  The Wi-Fi manager of the firmware (\<^verbatim>\<open>src/WifiManager.cpp\<close>, \<^verbatim>\<open>include/WifiManager.h\<close>)
  is modelled by explicit state passing. The record \<open>device\<close> holds the member variables of
  the \<open>WifiManager\<close> object (the fields \<open>m_...\<close>, named as in the header) together with the
  part of the SDK's state that the member functions drive: the Wi-Fi driver, the two default
  network interfaces, the key-value storage of the namespace, and whether \<^verbatim>\<open>esp_restart\<close>
  has been called. The SDK itself is outside the repository. Its calls that the code checks
  for failure take their result code from a record \<open>sdk\<close> of outcomes, so that every
  error branch of the source is a branch of the model; the calls whose result the code
  ignores (\<^verbatim>\<open>esp_wifi_stop\<close>, \<^verbatim>\<open>esp_wifi_deinit\<close>, \<^verbatim>\<open>httpd_stop\<close>,
  \<^verbatim>\<open>httpd_register_uri_handler\<close> on a fresh server, \<^verbatim>\<open>nvs_set_str\<close>) have their
  effect.
\<close>

datatype esp_err_t =
    ESP_OK
  | ESP_FAIL
  | ESP_ERR_INVALID_ARG
  | ESP_ERR_NOT_FOUND
  | ESP_ERR_NVS_NOT_FOUND
  | ESP_ERR_HTTPD_RESULT_TRUNC
  | ESP_ERR_OTHER

text \<open>\<^verbatim>\<open>ESP_ERROR_CHECK\<close> aborts the firmware when its argument is not \<open>ESP_OK\<close>.\<close>

datatype fatal = Abort

type_synonym EventBits_t = "32 word"

definition WIFI_CONNECTED_BIT :: EventBits_t where
  "WIFI_CONNECTED_BIT = 1"

definition WIFI_FAIL_BIT :: EventBits_t where
  "WIFI_FAIL_BIT = 2"

definition MAX_RETRY :: "8 word" where
  "MAX_RETRY = 5"

datatype wifi_mode_t = WIFI_MODE_NULL | WIFI_MODE_STA | WIFI_MODE_AP | WIFI_MODE_APSTA

datatype http_method = HTTP_GET | HTTP_POST

datatype handler =
    provisioningGetHandler_fn
  | connectPostHandler_fn
  | resetGetHandler_fn
  | faviconGetHandler_fn

text \<open>The field \<^verbatim>\<open>method\<close> of the SDK's \<^verbatim>\<open>httpd_uri_t\<close> is named \<open>http_method\<close> here.\<close>

record httpd_uri_t =
  uri :: string
  http_method :: http_method
  handler :: handler

record device =
  m_wifi_event_group :: EventBits_t
  m_server :: "httpd_uri_t list option"
  m_is_connected :: bool
  m_retry_num :: "8 word"
  m_current_ip :: string
  wifi_initialized :: bool
  wifi_started :: bool
  wifi_mode :: wifi_mode_t
  sta_config :: "string \<times> string"
  ap_config :: "string \<times> string \<times> nat"
  netif_sta :: bool
  netif_ap :: bool
  handlers_registered :: bool
  nvs :: "string \<rightharpoonup> string"
  restarted :: bool

record sdk =
  esp_netif_init_r :: esp_err_t
  esp_event_loop_create_default_r :: esp_err_t
  esp_event_handler_instance_register_r :: esp_err_t
  esp_wifi_init_r :: esp_err_t
  esp_wifi_set_mode_r :: esp_err_t
  esp_wifi_set_config_r :: esp_err_t
  esp_wifi_start_r :: esp_err_t
  httpd_start_r :: esp_err_t
  nvs_open_r :: esp_err_t
  nvs_get_str_r :: "string \<Rightarrow> esp_err_t"
  nvs_commit_r :: esp_err_t

text \<open>An SDK in which every call succeeds.\<close>

definition sdk_ok :: sdk where
  "sdk_ok = \<lparr> esp_netif_init_r = ESP_OK, esp_event_loop_create_default_r = ESP_OK,
              esp_event_handler_instance_register_r = ESP_OK, esp_wifi_init_r = ESP_OK,
              esp_wifi_set_mode_r = ESP_OK, esp_wifi_set_config_r = ESP_OK,
              esp_wifi_start_r = ESP_OK, httpd_start_r = ESP_OK, nvs_open_r = ESP_OK,
              nvs_get_str_r = (\<lambda>k. ESP_OK), nvs_commit_r = ESP_OK \<rparr>"

text \<open>
  The constructor: no server, not connected, retry counter zero, a fresh event group (no bit
  set), an empty address string. The storage \<open>nv\<close> is what the flash holds at power-on.
\<close>

definition WifiManager :: "(string \<rightharpoonup> string) \<Rightarrow> device" where
  "WifiManager nv =
     \<lparr> m_wifi_event_group = 0, m_server = None, m_is_connected = False, m_retry_num = 0,
       m_current_ip = [], wifi_initialized = False, wifi_started = False,
       wifi_mode = WIFI_MODE_NULL, sta_config = ([], []), ap_config = ([], [], 0),
       netif_sta = False, netif_ap = False, handlers_registered = False,
       nvs = nv, restarted = False \<rparr>"

definition isConnected :: "device \<Rightarrow> bool" where
  "isConnected s = m_is_connected s"

definition getIpAddress :: "device \<Rightarrow> string" where
  "getIpAddress s = m_current_ip s"

section \<open>C strings and address formatting\<close>

text \<open>
  A \<^verbatim>\<open>std::string\<close> handed over as \<^verbatim>\<open>c_str()\<close>, and a \<^verbatim>\<open>char\<close> buffer read as a
  string, end at the first NUL byte.
\<close>

definition NUL :: char where
  "NUL = CHR 0x00"

definition c_str :: "string \<Rightarrow> string" where
  "c_str xs = takeWhile (\<lambda>c. c \<noteq> NUL) xs"

text \<open>\<^verbatim>\<open>%d\<close> of one byte of the address.\<close>

definition digit :: "nat \<Rightarrow> char" where
  "digit d = ''0123456789'' ! (d mod 10)"

definition dec_u8 :: "8 word \<Rightarrow> string" where
  "dec_u8 b =
     (let n = unat b in
      if n < 10 then [digit n]
      else if n < 100 then [digit (n div 10), digit n]
      else [digit (n div 100), digit (n div 10), digit n])"

text \<open>
  \<^verbatim>\<open>IP2STR\<close> reads the four bytes of the 32-bit address in memory order (the target is
  little-endian); \<^verbatim>\<open>snprintf\<close> into \<^verbatim>\<open>char ip_str[16]\<close> keeps at most 15 characters.
\<close>

definition ip4_byte :: "32 word \<Rightarrow> nat \<Rightarrow> 8 word" where
  "ip4_byte a i = ucast (drop_bit (8 * i) a)"

definition ip4_str :: "32 word \<Rightarrow> string" where
  "ip4_str a =
     take 15 (dec_u8 (ip4_byte a 0) @ ''.'' @ dec_u8 (ip4_byte a 1) @ ''.'' @
              dec_u8 (ip4_byte a 2) @ ''.'' @ dec_u8 (ip4_byte a 3))"

section \<open>The event handler\<close>

text \<open>
  The handler is registered for every Wi-Fi event and for the got-address event. Besides
  updating the object it calls into the SDK; the calls it makes are returned with the new
  state, in order.
\<close>

datatype event =
    WIFI_EVENT_STA_START
  | WIFI_EVENT_STA_DISCONNECTED
  | WIFI_EVENT_OTHER
  | IP_EVENT_STA_GOT_IP "32 word"

datatype sdk_call = esp_wifi_connect | xEventGroupSetBits EventBits_t

fun eventHandler :: "event \<Rightarrow> device \<Rightarrow> sdk_call list \<times> device" where
  "eventHandler WIFI_EVENT_STA_START s = ([esp_wifi_connect], s)"
| "eventHandler WIFI_EVENT_STA_DISCONNECTED s =
     (if m_retry_num s < MAX_RETRY
      then ([esp_wifi_connect], s\<lparr>m_retry_num := m_retry_num s + 1\<rparr>)
      else ([xEventGroupSetBits WIFI_FAIL_BIT],
            s\<lparr>m_is_connected := False,
              m_wifi_event_group := m_wifi_event_group s OR WIFI_FAIL_BIT\<rparr>))"
| "eventHandler (IP_EVENT_STA_GOT_IP a) s =
     ([xEventGroupSetBits WIFI_CONNECTED_BIT],
      s\<lparr>m_current_ip := ip4_str a, m_retry_num := 0, m_is_connected := True,
        m_wifi_event_group := m_wifi_event_group s OR WIFI_CONNECTED_BIT\<rparr>)"
| "eventHandler WIFI_EVENT_OTHER s = ([], s)"

text \<open>The event loop delivers events one at a time.\<close>

fun run_events :: "event list \<Rightarrow> device \<Rightarrow> sdk_call list \<times> device" where
  "run_events [] s = ([], s)"
| "run_events (e # es) s =
     (let (c1, s1) = eventHandler e s; (c2, s2) = run_events es s1 in (c1 @ c2, s2))"

section \<open>The web server\<close>

text \<open>
  The server handle \<open>m_server\<close> is \<open>None\<close> for the null pointer; a running server is
  represented by the handlers registered with it, in the order of registration.
\<close>

definition httpd_register_uri_handler :: "httpd_uri_t list \<Rightarrow> httpd_uri_t \<Rightarrow> httpd_uri_t list" where
  "httpd_register_uri_handler hs u = hs @ [u]"

definition startWebServer :: "sdk \<Rightarrow> bool \<Rightarrow> device \<Rightarrow> device" where
  "startWebServer env is_provisioning_mode s =
     (if m_server s \<noteq> None then s
      else if httpd_start_r env = ESP_OK then
        (let h0 = [];
             h1 = (if is_provisioning_mode
                   then httpd_register_uri_handler
                          (httpd_register_uri_handler h0
                             \<lparr>uri = ''/'', http_method = HTTP_GET, handler = provisioningGetHandler_fn\<rparr>)
                          \<lparr>uri = ''/connect'', http_method = HTTP_POST, handler = connectPostHandler_fn\<rparr>
                   else httpd_register_uri_handler h0
                          \<lparr>uri = ''/reset'', http_method = HTTP_GET, handler = resetGetHandler_fn\<rparr>);
             h2 = httpd_register_uri_handler h1
                    \<lparr>uri = ''/favicon.ico'', http_method = HTTP_GET, handler = faviconGetHandler_fn\<rparr>
         in s\<lparr>m_server := Some h2\<rparr>)
      else s)"

definition stopWebServer :: "device \<Rightarrow> device" where
  "stopWebServer s = (if m_server s \<noteq> None then s\<lparr>m_server := None\<rparr> else s)"

text \<open>The endpoints of a running server, as (method, path) pairs.\<close>

definition endpoints :: "device \<Rightarrow> (http_method \<times> string) set" where
  "endpoints s = (case m_server s of None \<Rightarrow> {} | Some hs \<Rightarrow> set (map (\<lambda>u. (http_method u, uri u)) hs))"

section \<open>The radio\<close>

definition ESP_ERROR_CHECK :: "esp_err_t \<Rightarrow> (fatal + 'a) \<Rightarrow> fatal + 'a" where
  "ESP_ERROR_CHECK r continue = (if r \<noteq> ESP_OK then Inl Abort else continue)"

definition PROV_AP_SSID :: string where
  "PROV_AP_SSID = ''ESP32-Provisioning''"

definition PROV_AP_PASS :: string where
  "PROV_AP_PASS = ''password123''"

definition PROV_AP_MAX_CONN :: nat where
  "PROV_AP_MAX_CONN = 1"

definition stopWifi :: "device \<Rightarrow> device" where
  "stopWifi s =
     (let s1 = stopWebServer s;
          s2 = s1\<lparr>wifi_started := False\<rparr>;
          s3 = s2\<lparr>wifi_initialized := False, wifi_mode := WIFI_MODE_NULL\<rparr>;
          s4 = (if netif_sta s3 then s3\<lparr>netif_sta := False\<rparr> else s3)
      in if netif_ap s4 then s4\<lparr>netif_ap := False\<rparr> else s4)"

text \<open>
  \<^verbatim>\<open>strncpy\<close> into the 32-byte and 64-byte fields of the driver's configuration keeps at
  most that many bytes of the C string.
\<close>

definition connectToWifi :: "sdk \<Rightarrow> string \<Rightarrow> string \<Rightarrow> device \<Rightarrow> fatal + esp_err_t \<times> device" where
  "connectToWifi env ssid password s =
     (if ssid = [] then Inr (ESP_ERR_INVALID_ARG, s)
      else
        (let s1 = stopWifi s;
             s2 = s1\<lparr>netif_sta := True\<rparr>
         in ESP_ERROR_CHECK (esp_wifi_init_r env)
           (let s3 = s2\<lparr>wifi_initialized := True\<rparr>;
                wifi_config = (take 32 (c_str ssid), take 64 (c_str password))
            in ESP_ERROR_CHECK (esp_wifi_set_mode_r env)
              (let s4 = s3\<lparr>wifi_mode := WIFI_MODE_STA\<rparr>
               in ESP_ERROR_CHECK (esp_wifi_set_config_r env)
                 (let s5 = s4\<lparr>sta_config := wifi_config\<rparr>
                  in ESP_ERROR_CHECK (esp_wifi_start_r env)
                       (Inr (ESP_OK, s5\<lparr>wifi_started := True\<rparr>)))))))"

definition startProvisioning :: "sdk \<Rightarrow> device \<Rightarrow> fatal + device" where
  "startProvisioning env s =
     (let s1 = stopWifi s;
          s2 = s1\<lparr>netif_ap := True\<rparr>
      in ESP_ERROR_CHECK (esp_wifi_init_r env)
        (let s3 = s2\<lparr>wifi_initialized := True\<rparr>;
             wifi_config = (take 32 PROV_AP_SSID, take 64 PROV_AP_PASS, PROV_AP_MAX_CONN)
         in ESP_ERROR_CHECK (esp_wifi_set_mode_r env)
           (let s4 = s3\<lparr>wifi_mode := WIFI_MODE_AP\<rparr>
            in ESP_ERROR_CHECK (esp_wifi_set_config_r env)
              (let s5 = s4\<lparr>ap_config := wifi_config\<rparr>
               in ESP_ERROR_CHECK (esp_wifi_start_r env)
                    (Inr (startWebServer env True (s5\<lparr>wifi_started := True\<rparr>)))))))"

section \<open>The credential store\<close>

text \<open>
  The storage driver is outside the repository. It is modelled as the specification
  describes it: a map from keys to strings whose writes take effect when the commit
  succeeds. A string is stored and read back as a C string. Opening the namespace, reading
  a key and committing can fail with the codes given by \<open>sdk\<close>; a key that is absent reads
  as \<open>ESP_ERR_NVS_NOT_FOUND\<close>.
\<close>

definition NVS_KEY_WIFI_SSID :: string where
  "NVS_KEY_WIFI_SSID = ''wifi_ssid''"

definition NVS_KEY_WIFI_PASS :: string where
  "NVS_KEY_WIFI_PASS = ''wifi_pass''"

definition nvs_get_str :: "sdk \<Rightarrow> device \<Rightarrow> string \<Rightarrow> esp_err_t \<times> string" where
  "nvs_get_str env s key =
     (if nvs_get_str_r env key \<noteq> ESP_OK then (nvs_get_str_r env key, [])
      else case nvs s key of None \<Rightarrow> (ESP_ERR_NVS_NOT_FOUND, []) | Some v \<Rightarrow> (ESP_OK, c_str v))"

definition saveCredentials :: "sdk \<Rightarrow> string \<Rightarrow> string \<Rightarrow> device \<Rightarrow> esp_err_t \<times> device" where
  "saveCredentials env ssid password s =
     (if nvs_open_r env \<noteq> ESP_OK then (nvs_open_r env, s)
      else
        (let pending = (nvs s)(NVS_KEY_WIFI_SSID \<mapsto> c_str ssid, NVS_KEY_WIFI_PASS \<mapsto> c_str password)
         in if nvs_commit_r env = ESP_OK then (ESP_OK, s\<lparr>nvs := pending\<rparr>)
            else (nvs_commit_r env, s)))"

text \<open>
  \<open>loadCredentials\<close> has two output parameters; it takes their old values and returns the
  new ones with the result code.
\<close>

definition loadCredentials :: "sdk \<Rightarrow> device \<Rightarrow> string \<Rightarrow> string \<Rightarrow> esp_err_t \<times> string \<times> string" where
  "loadCredentials env s ssid password =
     (if nvs_open_r env \<noteq> ESP_OK then (nvs_open_r env, ssid, password)
      else
        (let (err, ssid_buf) = nvs_get_str env s NVS_KEY_WIFI_SSID
         in if err \<noteq> ESP_OK then (err, ssid, password)
            else
              (let ssid1 = ssid_buf;
                   (err2, pass_buf) = nvs_get_str env s NVS_KEY_WIFI_PASS
               in if err2 = ESP_ERR_NVS_NOT_FOUND then (ESP_OK, ssid1, [])
                  else if err2 = ESP_OK then (ESP_OK, ssid1, pass_buf)
                  else (err2, ssid1, password))))"

definition esp_restart :: "device \<Rightarrow> device" where
  "esp_restart s = s\<lparr>restarted := True\<rparr>"

definition clearCredentialsAndRestart :: "sdk \<Rightarrow> device \<Rightarrow> device" where
  "clearCredentialsAndRestart env s =
     (if nvs_open_r env \<noteq> ESP_OK then esp_restart s
      else
        (let pending = (nvs s)(NVS_KEY_WIFI_SSID := None, NVS_KEY_WIFI_PASS := None);
             s1 = (if nvs_commit_r env = ESP_OK then s\<lparr>nvs := pending\<rparr> else s)
         in esp_restart s1))"

section \<open>The supervisor\<close>

definition initialize :: "sdk \<Rightarrow> device \<Rightarrow> fatal + device" where
  "initialize env s =
     ESP_ERROR_CHECK (esp_netif_init_r env)
       (ESP_ERROR_CHECK (esp_event_loop_create_default_r env)
          (ESP_ERROR_CHECK (esp_event_handler_instance_register_r env)
             (ESP_ERROR_CHECK (esp_event_handler_instance_register_r env)
                (Inr (s\<lparr>handlers_registered := True\<rparr>)))))"

text \<open>
  \<^verbatim>\<open>xEventGroupWaitBits\<close> is called with both flags, without clearing on exit and without
  waiting for all bits. The events that the radio delivers while the supervisor is blocked
  are a parameter: the wait ends in the first state in which one of the two flags is set,
  and by timeout when the events run out before that. It returns the value of the group.
\<close>

fun xEventGroupWaitBits :: "event list \<Rightarrow> device \<Rightarrow> EventBits_t \<times> device" where
  "xEventGroupWaitBits [] s = (m_wifi_event_group s, s)"
| "xEventGroupWaitBits (e # es) s =
     (if m_wifi_event_group s AND (WIFI_CONNECTED_BIT OR WIFI_FAIL_BIT) \<noteq> 0
      then (m_wifi_event_group s, s)
      else xEventGroupWaitBits es (snd (eventHandler e s)))"

definition start :: "sdk \<Rightarrow> event list \<Rightarrow> device \<Rightarrow> fatal + device" where
  "start env evs s =
     (case initialize env s of
        Inl f \<Rightarrow> Inl f
      | Inr s0 \<Rightarrow>
          (let (err, saved_ssid, saved_pass) = loadCredentials env s0 [] []
           in if err = ESP_OK then
                (case connectToWifi env saved_ssid saved_pass s0 of
                   Inl f \<Rightarrow> Inl f
                 | Inr (r, s1) \<Rightarrow>
                     (let (bits, s2) = xEventGroupWaitBits evs s1
                      in if bits AND WIFI_CONNECTED_BIT \<noteq> 0
                         then Inr (startWebServer env False s2)
                         else startProvisioning env s2))
              else startProvisioning env s0))"

section \<open>The request handlers\<close>

text \<open>
  A request carries the bytes that one call of \<^verbatim>\<open>httpd_req_recv\<close> can deliver and the
  socket's status: a negative status is the error code that the call returns, otherwise it
  returns the number of bytes it copied, at most the length of the buffer.
\<close>

record httpd_req_t =
  content :: string
  sock_status :: int

definition HTTPD_SOCK_ERR_TIMEOUT :: int where
  "HTTPD_SOCK_ERR_TIMEOUT = - 3"

definition httpd_req_recv :: "httpd_req_t \<Rightarrow> nat \<Rightarrow> int \<times> string" where
  "httpd_req_recv req buf_len =
     (if sock_status req < 0 then (sock_status req, [])
      else (int (length (take buf_len (content req))), take buf_len (content req)))"

text \<open>
  \<^verbatim>\<open>httpd_query_key_value\<close> belongs to the SDK. The model follows its documented
  behaviour: the query string is a sequence of \<open>name=value\<close> pairs separated by \<open>&\<close>; the
  value of the first pair whose name is the key (compared without regard to case) is copied
  into the buffer, cut to the buffer's size with result \<open>ESP_ERR_HTTPD_RESULT_TRUNC\<close> when
  it does not fit with its terminator; values are not URL-decoded. It returns the result
  code and the buffer's contents, the buffer being zeroed before the call.
\<close>

definition strchr :: "string \<Rightarrow> char \<Rightarrow> nat option" where
  "strchr str c = (if c \<in> set str then Some (length (takeWhile (\<lambda>x. x \<noteq> c) str)) else None)"

definition tolower :: "char \<Rightarrow> char" where
  "tolower c =
     (let n = (of_char c :: nat) in if 65 \<le> n \<and> n \<le> 90 then char_of (n + 32) else c)"

function httpd_query_key_value :: "string \<Rightarrow> string \<Rightarrow> nat \<Rightarrow> esp_err_t \<times> string" where
  "httpd_query_key_value qry key buf_len =
     (if qry = [] then (ESP_ERR_NOT_FOUND, [])
      else
        (case strchr qry CHR ''='' of
           None \<Rightarrow> (ESP_ERR_NOT_FOUND, [])
         | Some offset \<Rightarrow>
             if offset \<noteq> length key \<or> map tolower (take offset qry) \<noteq> map tolower key
             then (case strchr (drop offset qry) CHR ''&'' of
                     None \<Rightarrow> (ESP_ERR_NOT_FOUND, [])
                   | Some j \<Rightarrow> httpd_query_key_value (drop (offset + j + 1) qry) key buf_len)
             else
               (let val = takeWhile (\<lambda>x. x \<noteq> CHR ''&'') (drop (offset + 1) qry);
                    val_size = length val + 1
                in (if buf_len < val_size then ESP_ERR_HTTPD_RESULT_TRUNC else ESP_OK,
                    take (min val_size buf_len - 1) val))))"
  by pat_completeness auto
termination
  by (relation "measure (\<lambda>(qry, key, buf_len). length qry)") auto

declare httpd_query_key_value.simps [simp del]

type_synonym http_resp = "nat \<times> string"

definition connectPostHandler :: "sdk \<Rightarrow> httpd_req_t \<Rightarrow> device \<Rightarrow> esp_err_t \<times> http_resp list \<times> device" where
  "connectPostHandler env req s =
     (let (ret, data) = httpd_req_recv req 127
      in if ret \<le> 0 then
           (ESP_FAIL, if ret = HTTPD_SOCK_ERR_TIMEOUT then [(408, [])] else [], s)
         else
           (let buf = c_str data;
                (e1, ssid) = httpd_query_key_value buf ''ssid'' 33
            in if e1 \<noteq> ESP_OK then (ESP_FAIL, [(400, ''Missing 'ssid' parameter'')], s)
               else
                 (let (e2, pass) = httpd_query_key_value buf ''password'' 65;
                      resp_str = ''<h1>Connecting...</h1><p>If successful, the device will connect to the network. If failed, it will remain in provisioning mode.</p>'';
                      (e3, s1) = saveCredentials env ssid pass s
                  in (ESP_OK, [(200, resp_str)], esp_restart s1))))"

definition resetGetHandler :: "sdk \<Rightarrow> device \<Rightarrow> esp_err_t \<times> http_resp list \<times> device" where
  "resetGetHandler env s =
     (ESP_OK,
      [(200, ''<h1>Credentials Cleared</h1><p>The device will restart and enter provisioning mode.</p>'')],
      clearCredentialsAndRestart env s)"

section \<open>Runs of the device\<close>

text \<open>
  A run is a sequence of calls of the member functions, each with the outcomes of the SDK
  calls it makes. Every sequence is admitted, also those that the firmware never performs
  (the supervisor calls \<open>start\<close> once per boot, the private functions are called from
  \<open>start\<close> and from the handlers only), so that what holds after every run holds in every
  state the firmware reaches. An abort ends the run.
\<close>

datatype call =
    Start sdk "event list"
  | Deliver event
  | ConnectToWifi sdk string string
  | StartProvisioning sdk
  | StopWifi
  | StartWebServer sdk bool
  | StopWebServer
  | SaveCredentials sdk string string
  | ClearCredentialsAndRestart sdk
  | ConnectPost sdk httpd_req_t
  | ResetGet sdk

fun call_step :: "call \<Rightarrow> device \<Rightarrow> fatal + device" where
  "call_step (Start env evs) s = start env evs s"
| "call_step (Deliver e) s = Inr (snd (eventHandler e s))"
| "call_step (ConnectToWifi env ssid password) s =
     (case connectToWifi env ssid password s of Inl f \<Rightarrow> Inl f | Inr (r, s') \<Rightarrow> Inr s')"
| "call_step (StartProvisioning env) s = startProvisioning env s"
| "call_step StopWifi s = Inr (stopWifi s)"
| "call_step (StartWebServer env b) s = Inr (startWebServer env b s)"
| "call_step StopWebServer s = Inr (stopWebServer s)"
| "call_step (SaveCredentials env ssid password) s = Inr (snd (saveCredentials env ssid password s))"
| "call_step (ClearCredentialsAndRestart env) s = Inr (clearCredentialsAndRestart env s)"
| "call_step (ConnectPost env req) s = Inr (snd (snd (connectPostHandler env req s)))"
| "call_step (ResetGet env) s = Inr (snd (snd (resetGetHandler env s)))"

fun exec :: "call list \<Rightarrow> device \<Rightarrow> fatal + device" where
  "exec [] s = Inr s"
| "exec (c # cs) s = (case call_step c s of Inl f \<Rightarrow> Inl f | Inr s' \<Rightarrow> exec cs s')"

section \<open>Form bodies\<close>





section \<open>Server configurations, invariants and example devices\<close>

text \<open>The two lists of handlers that \<open>startWebServer\<close> registers.\<close>

definition provisioning_uris :: "httpd_uri_t list" where
  "provisioning_uris =
     [\<lparr>uri = ''/'', http_method = HTTP_GET, handler = provisioningGetHandler_fn\<rparr>,
      \<lparr>uri = ''/connect'', http_method = HTTP_POST, handler = connectPostHandler_fn\<rparr>,
      \<lparr>uri = ''/favicon.ico'', http_method = HTTP_GET, handler = faviconGetHandler_fn\<rparr>]"

definition operational_uris :: "httpd_uri_t list" where
  "operational_uris =
     [\<lparr>uri = ''/reset'', http_method = HTTP_GET, handler = resetGetHandler_fn\<rparr>,
      \<lparr>uri = ''/favicon.ico'', http_method = HTTP_GET, handler = faviconGetHandler_fn\<rparr>]"

text \<open>The invariants that the runs of the device maintain.\<close>

definition server_ok :: "device \<Rightarrow> bool" where
  "server_ok s = (m_server s = None \<or> m_server s = Some provisioning_uris \<or> m_server s = Some operational_uris)"

definition radio_ok :: "device \<Rightarrow> bool" where
  "radio_ok s = (\<not> (netif_sta s \<and> netif_ap s) \<and> wifi_mode s \<noteq> WIFI_MODE_APSTA)"

text \<open>
  Devices used as concrete inputs: a storage holding the credentials of a home network; the
  device after a boot with these credentials during which the radio reported the address
  192.168.1.42; that device after it has lost the connection and used up its retries; the
  device after a boot with empty storage; and the two devices reached by switching the radio
  mode from there.
\<close>

definition home_network :: "string \<rightharpoonup> string" where
  "home_network = [''wifi_ssid'' \<mapsto> ''HomeNet'', ''wifi_pass'' \<mapsto> ''hunter2'']"

definition connected_device :: device where
  "connected_device =
     (WifiManager home_network)
       \<lparr>m_wifi_event_group := 1, m_server := Some operational_uris, m_is_connected := True,
        m_current_ip := ''192.168.1.42'', wifi_initialized := True, wifi_started := True,
        wifi_mode := WIFI_MODE_STA, sta_config := (''HomeNet'', ''hunter2''), netif_sta := True,
        handlers_registered := True\<rparr>"

definition disconnected_device :: device where
  "disconnected_device =
     connected_device\<lparr>m_wifi_event_group := 3, m_is_connected := False, m_retry_num := 5\<rparr>"

definition provisioning_device :: device where
  "provisioning_device =
     (WifiManager Map.empty)
       \<lparr>m_server := Some provisioning_uris, wifi_initialized := True, wifi_started := True,
        wifi_mode := WIFI_MODE_AP, ap_config := (''ESP32-Provisioning'', ''password123'', 1),
        netif_ap := True, handlers_registered := True\<rparr>"

definition station_device :: device where
  "station_device =
     provisioning_device
       \<lparr>m_server := None, wifi_mode := WIFI_MODE_STA, sta_config := (''HomeNet'', ''hunter2''),
        netif_sta := True, netif_ap := False\<rparr>"

definition reprovisioned_device :: device where
  "reprovisioned_device =
     connected_device
       \<lparr>m_server := Some provisioning_uris, wifi_mode := WIFI_MODE_AP,
        ap_config := (''ESP32-Provisioning'', ''password123'', 1), netif_sta := False,
        netif_ap := True\<rparr>"

definition warm_events :: "event list" where
  "warm_events = [WIFI_EVENT_STA_START, IP_EVENT_STA_GOT_IP 0x2A01A8C0]"

section \<open>Auxiliary facts\<close>

lemmas wifi_defs = connectToWifi_def startProvisioning_def stopWifi_def stopWebServer_def
  startWebServer_def ESP_ERROR_CHECK_def httpd_register_uri_handler_def

lemmas store_defs = saveCredentials_def clearCredentialsAndRestart_def esp_restart_def
  connectPostHandler_def resetGetHandler_def

subsection \<open>The event handler on runs of disconnects\<close>

lemma unat_MAX_RETRY: "unat MAX_RETRY = 5"
  by (simp add: MAX_RETRY_def)

lemma unat_inc_below_max: "x < MAX_RETRY \<Longrightarrow> unat (x + 1) = Suc (unat x)"
  by (simp add: word_less_nat_alt unat_MAX_RETRY unat_word_ariths)

lemma run_events_Cons_snd:
  "snd (run_events (e # es) s) = snd (run_events es (snd (eventHandler e s)))"
  by (simp add: split_def Let_def)

lemma run_events_Cons_fst:
  "fst (run_events (e # es) s) =
     fst (eventHandler e s) @ fst (run_events es (snd (eventHandler e s)))"
  by (simp add: split_def Let_def)

lemma replicate_5: "replicate 5 x = [x, x, x, x, x]"
  by (simp add: numeral_eq_Suc)

lemma replicate_6: "replicate 6 x = [x, x, x, x, x, x]"
  by (simp add: numeral_eq_Suc)

lemma replicate_7: "replicate 7 x = [x, x, x, x, x, x, x]"
  by (simp add: numeral_eq_Suc)

lemma count_list_replicate_if: "count_list (replicate a x) y = (if x = y then a else 0)"
  by (induction a) auto

text \<open>
  A run of \<open>n\<close> disconnects from a state whose counter is \<open>r\<close> below the bound: the first
  \<open>r\<close> of them are answered by a reconnect, every later one by the fail flag.
\<close>

lemma disconnects_run:
  assumes "unat (m_retry_num s) + r = 5"
  shows "unat (m_retry_num (snd (run_events (replicate n WIFI_EVENT_STA_DISCONNECTED) s)))
           = 5 - (r - n)
       \<and> fst (run_events (replicate n WIFI_EVENT_STA_DISCONNECTED) s)
           = replicate (min n r) esp_wifi_connect
             @ replicate (n - r) (xEventGroupSetBits WIFI_FAIL_BIT)
       \<and> m_wifi_event_group (snd (run_events (replicate n WIFI_EVENT_STA_DISCONNECTED) s))
           = (if r < n then m_wifi_event_group s OR WIFI_FAIL_BIT else m_wifi_event_group s)
       \<and> m_is_connected (snd (run_events (replicate n WIFI_EVENT_STA_DISCONNECTED) s))
           = (if r < n then False else m_is_connected s)
       \<and> m_current_ip (snd (run_events (replicate n WIFI_EVENT_STA_DISCONNECTED) s))
           = m_current_ip s"
  using assms
proof (induction n arbitrary: s r)
  case 0
  then show ?case by simp
next
  case (Suc n)
  show ?case
  proof (cases "m_retry_num s < MAX_RETRY")
    case True
    then have "unat (m_retry_num s) < 5"
      by (simp add: word_less_nat_alt unat_MAX_RETRY)
    with Suc.prems obtain r' where r: "r = Suc r'"
      by (cases r) auto
    have "unat (m_retry_num (s\<lparr>m_retry_num := m_retry_num s + 1\<rparr>)) + r' = 5"
      using True Suc.prems r by (simp add: unat_inc_below_max)
    from Suc.IH[OF this] True r show ?thesis
      by (simp add: run_events_Cons_snd run_events_Cons_fst del: run_events.simps)
  next
    case False
    then have r: "r = 0"
      using Suc.prems by (simp add: word_less_nat_alt unat_MAX_RETRY)
    have "unat (m_retry_num (s\<lparr>m_is_connected := False,
              m_wifi_event_group := m_wifi_event_group s OR WIFI_FAIL_BIT\<rparr>)) + 0 = 5"
      using r Suc.prems by simp
    from Suc.IH[OF this] False r show ?thesis
      by (simp add: run_events_Cons_snd run_events_Cons_fst del: run_events.simps)
  qed
qed

subsection \<open>The three ways through the supervisor\<close>

text \<open>
  A run of \<open>start\<close> that does not abort found no credentials and went to provisioning,
  or attempted a connection and saw the connected flag, or attempted one and did not.
\<close>

lemma start_cases:
  assumes "start env evs s = Inr s'"
  obtains
    (no_credentials) s0 where
      "initialize env s = Inr s0"
      "fst (loadCredentials env s0 [] []) \<noteq> ESP_OK"
      "startProvisioning env s0 = Inr s'"
  | (connected) s0 ssid pass r s1 where
      "initialize env s = Inr s0"
      "loadCredentials env s0 [] [] = (ESP_OK, ssid, pass)"
      "connectToWifi env ssid pass s0 = Inr (r, s1)"
      "fst (xEventGroupWaitBits evs s1) AND WIFI_CONNECTED_BIT \<noteq> 0"
      "s' = startWebServer env False (snd (xEventGroupWaitBits evs s1))"
  | (failed) s0 ssid pass r s1 where
      "initialize env s = Inr s0"
      "loadCredentials env s0 [] [] = (ESP_OK, ssid, pass)"
      "connectToWifi env ssid pass s0 = Inr (r, s1)"
      "fst (xEventGroupWaitBits evs s1) AND WIFI_CONNECTED_BIT = 0"
      "startProvisioning env (snd (xEventGroupWaitBits evs s1)) = Inr s'"
proof -
  from assms obtain s0 where i: "initialize env s = Inr s0"
    by (auto simp: start_def split: sum.splits)
  obtain err ssid pass where l: "loadCredentials env s0 [] [] = (err, ssid, pass)"
    by (cases "loadCredentials env s0 [] []") auto
  show thesis
  proof (cases "err = ESP_OK")
    case False
    with assms i l have "startProvisioning env s0 = Inr s'"
      by (simp add: start_def)
    with i l False show thesis
      by (intro no_credentials[of s0]) simp_all
  next
    case True
    with assms i l obtain r s1 where c: "connectToWifi env ssid pass s0 = Inr (r, s1)"
      by (auto simp: start_def split: sum.splits)
    show thesis
    proof (cases "fst (xEventGroupWaitBits evs s1) AND WIFI_CONNECTED_BIT = 0")
      case z: True
      with assms i l True c have "startProvisioning env (snd (xEventGroupWaitBits evs s1)) = Inr s'"
        by (simp add: start_def split_def)
      with i l True c z show thesis
        by (intro failed[of s0 ssid pass r s1]) simp_all
    next
      case nz: False
      with assms i l True c have "s' = startWebServer env False (snd (xEventGroupWaitBits evs s1))"
        by (simp add: start_def split_def)
      with i l True c nz show thesis
        by (intro connected[of s0 ssid pass r s1]) simp_all
    qed
  qed
qed

subsection \<open>The retry counter is bounded in every run\<close>

lemma eventHandler_retry:
  "m_retry_num s \<le> MAX_RETRY \<Longrightarrow> m_retry_num (snd (eventHandler e s)) \<le> MAX_RETRY"
  by (cases e) (auto simp: MAX_RETRY_def inc_le)

lemma wait_retry:
  "m_retry_num s \<le> MAX_RETRY \<Longrightarrow> m_retry_num (snd (xEventGroupWaitBits evs s)) \<le> MAX_RETRY"
  by (induction evs arbitrary: s) (simp_all add: eventHandler_retry)

lemma connectToWifi_retry:
  "connectToWifi env ssid pw s = Inr (r, s') \<Longrightarrow> m_retry_num s' = m_retry_num s"
  by (auto simp: wifi_defs Let_def split: if_splits)

lemma startProvisioning_retry:
  "startProvisioning env s = Inr s' \<Longrightarrow> m_retry_num s' = m_retry_num s"
  by (auto simp: wifi_defs Let_def split: if_splits)

lemma startWebServer_retry: "m_retry_num (startWebServer env b s) = m_retry_num s"
  by (simp add: wifi_defs Let_def)

lemma initialize_retry: "initialize env s = Inr s' \<Longrightarrow> m_retry_num s' = m_retry_num s"
  by (auto simp: initialize_def ESP_ERROR_CHECK_def split: if_splits)

lemma start_retry:
  assumes "start env evs s = Inr s'" "m_retry_num s \<le> MAX_RETRY"
  shows "m_retry_num s' \<le> MAX_RETRY"
  using assms(1)
proof (cases rule: start_cases)
  case (no_credentials s0)
  then show ?thesis
    using assms(2) initialize_retry startProvisioning_retry by metis
next
  case (connected s0 ssid pass r s1)
  then show ?thesis
    using assms(2) initialize_retry connectToWifi_retry wait_retry startWebServer_retry by metis
next
  case (failed s0 ssid pass r s1)
  then show ?thesis
    using assms(2) initialize_retry connectToWifi_retry wait_retry startProvisioning_retry by metis
qed

lemma call_step_retry:
  assumes "call_step c s = Inr s'" "m_retry_num s \<le> MAX_RETRY"
  shows "m_retry_num s' \<le> MAX_RETRY"
proof (cases c)
  case (Start env evs)
  with assms show ?thesis
    using start_retry by simp
next
  case (Deliver e)
  with assms show ?thesis
    using eventHandler_retry by auto
qed (use assms in \<open>auto simp: wifi_defs store_defs Let_def split_def split: sum.splits if_splits\<close>)

lemma exec_retry:
  "exec cs s = Inr s' \<Longrightarrow> m_retry_num s \<le> MAX_RETRY \<Longrightarrow> m_retry_num s' \<le> MAX_RETRY"
proof (induction cs arbitrary: s)
  case Nil
  then show ?case by simp
next
  case (Cons c cs)
  then show ?case
    by (auto split: sum.splits dest: call_step_retry)
qed

lemma exec_Deliver: "exec (map Deliver es) s = Inr (snd (run_events es s))"
  by (induction es arbitrary: s) (simp_all add: split_def Let_def)

subsection \<open>The server has one of two configurations in every run\<close>

lemma startWebServer_server:
  "m_server (startWebServer env b s) =
     (if m_server s \<noteq> None then m_server s
      else if httpd_start_r env \<noteq> ESP_OK then None
      else if b then Some provisioning_uris else Some operational_uris)"
  by (simp add: wifi_defs Let_def provisioning_uris_def operational_uris_def)

lemma m_server_stopWebServer: "m_server (stopWebServer s) = None"
  by (simp add: stopWebServer_def)

lemma m_server_stopWifi: "m_server (stopWifi s) = None"
  by (simp add: stopWifi_def stopWebServer_def Let_def)

lemma eventHandler_server: "m_server (snd (eventHandler e s)) = m_server s"
  by (cases e) auto

lemma wait_server: "m_server (snd (xEventGroupWaitBits evs s)) = m_server s"
  by (induction evs arbitrary: s) (simp_all add: eventHandler_server)

lemma connectToWifi_server:
  "connectToWifi env ssid pw s = Inr (r, s') \<Longrightarrow> m_server s' = (if ssid = [] then m_server s else None)"
  by (auto simp: connectToWifi_def ESP_ERROR_CHECK_def Let_def m_server_stopWifi split: if_splits)

lemma startProvisioning_server:
  "startProvisioning env s = Inr s' \<Longrightarrow>
     m_server s' = (if httpd_start_r env \<noteq> ESP_OK then None else Some provisioning_uris)"
  by (auto simp: startProvisioning_def ESP_ERROR_CHECK_def Let_def startWebServer_server m_server_stopWifi split: if_splits)

lemma initialize_server: "initialize env s = Inr s' \<Longrightarrow> m_server s' = m_server s"
  by (auto simp: initialize_def ESP_ERROR_CHECK_def split: if_splits)

lemma start_server:
  assumes "start env evs s = Inr s'" "server_ok s"
  shows "server_ok s'"
  using assms(1)
proof (cases rule: start_cases)
  case (no_credentials s0)
  from startProvisioning_server[OF no_credentials(3)] show ?thesis
    by (simp add: server_ok_def)
next
  case (connected s0 ssid pass r s1)
  have "m_server s0 = m_server s"
    using connected(1) by (rule initialize_server)
  with connectToWifi_server[OF connected(3)] assms(2) have "server_ok s1"
    by (simp add: server_ok_def)
  then have "server_ok (snd (xEventGroupWaitBits evs s1))"
    by (simp add: server_ok_def wait_server)
  then show ?thesis
    unfolding connected(5) by (auto simp add: server_ok_def startWebServer_server)
next
  case (failed s0 ssid pass r s1)
  from startProvisioning_server[OF failed(5)] show ?thesis
    by (simp add: server_ok_def)
qed

lemma other_calls_server:
  "m_server (snd (saveCredentials env ssid pw s)) = m_server s"
  "m_server (clearCredentialsAndRestart env s) = m_server s"
  "m_server (snd (snd (connectPostHandler env req s))) = m_server s"
  "m_server (snd (snd (resetGetHandler env s))) = m_server s"
  by (simp_all add: store_defs Let_def split_def)

lemma call_step_server:
  assumes "call_step c s = Inr s'" "server_ok s"
  shows "server_ok s'"
proof (cases c)
  case (Start env evs)
  with assms show ?thesis
    using start_server by simp
next
  case (Deliver e)
  with assms show ?thesis
    by (auto simp: server_ok_def eventHandler_server)
next
  case (ConnectToWifi env ssid pw)
  with assms obtain r where "connectToWifi env ssid pw s = Inr (r, s')"
    by (auto split: sum.splits)
  from connectToWifi_server[OF this] assms(2) show ?thesis
    by (simp add: server_ok_def)
next
  case (StartProvisioning env)
  with assms have "startProvisioning env s = Inr s'"
    by simp
  from startProvisioning_server[OF this] show ?thesis
    by (simp add: server_ok_def)
next
  case StopWifi
  with assms show ?thesis
    by (auto simp: server_ok_def m_server_stopWifi)
next
  case (StartWebServer env b)
  with assms show ?thesis
    by (auto simp: server_ok_def startWebServer_server split: if_splits)
next
  case StopWebServer
  with assms show ?thesis
    by (auto simp: server_ok_def m_server_stopWebServer)
next
  case (SaveCredentials env ssid pw)
  with assms show ?thesis
    by (auto simp: server_ok_def other_calls_server)
next
  case (ClearCredentialsAndRestart env)
  with assms show ?thesis
    by (auto simp: server_ok_def other_calls_server)
next
  case (ConnectPost env req)
  with assms show ?thesis
    by (auto simp: server_ok_def other_calls_server)
next
  case (ResetGet env)
  with assms show ?thesis
    by (auto simp: server_ok_def other_calls_server)
qed

lemma exec_server:
  "exec cs s = Inr s' \<Longrightarrow> server_ok s \<Longrightarrow> server_ok s'"
proof (induction cs arbitrary: s)
  case Nil
  then show ?case by simp
next
  case (Cons c cs)
  then show ?case
    by (auto split: sum.splits dest: call_step_server)
qed

lemma endpoints_None: "m_server s = None \<Longrightarrow> endpoints s = {}"
  by (simp add: endpoints_def)

lemma endpoints_provisioning:
  "m_server s = Some provisioning_uris \<Longrightarrow>
     endpoints s = {(HTTP_GET, ''/''), (HTTP_POST, ''/connect''), (HTTP_GET, ''/favicon.ico'')}"
  by (simp add: endpoints_def provisioning_uris_def)

lemma endpoints_operational:
  "m_server s = Some operational_uris \<Longrightarrow>
     endpoints s = {(HTTP_GET, ''/reset''), (HTTP_GET, ''/favicon.ico'')}"
  by (simp add: endpoints_def operational_uris_def)

subsection \<open>The radio has one mode in every run\<close>

lemma stopWifi_radio:
  "netif_sta (stopWifi s) = False" "netif_ap (stopWifi s) = False"
  "wifi_mode (stopWifi s) = WIFI_MODE_NULL" "wifi_started (stopWifi s) = False"
  "wifi_initialized (stopWifi s) = False"
  by (simp_all add: stopWifi_def stopWebServer_def Let_def)

lemma stopWifi_idem: "stopWifi (stopWifi s) = stopWifi s"
  by (simp add: stopWifi_def stopWebServer_def Let_def)

lemma connectToWifi_radio:
  assumes "connectToWifi env ssid pw s = Inr (r, s')"
  shows "(ssid = [] \<and> r = ESP_ERR_INVALID_ARG \<and> s' = s)
       \<or> (ssid \<noteq> [] \<and> r = ESP_OK \<and> wifi_mode s' = WIFI_MODE_STA \<and> netif_sta s' \<and> \<not> netif_ap s'
            \<and> wifi_started s' \<and> wifi_initialized s')"
  using assms
  by (auto simp: connectToWifi_def ESP_ERROR_CHECK_def Let_def stopWifi_radio split: if_splits)

lemma startWebServer_radio:
  "netif_sta (startWebServer env b s) = netif_sta s" "netif_ap (startWebServer env b s) = netif_ap s"
  "wifi_mode (startWebServer env b s) = wifi_mode s" "wifi_started (startWebServer env b s) = wifi_started s"
  "wifi_initialized (startWebServer env b s) = wifi_initialized s"
  by (simp_all add: wifi_defs Let_def)

lemma stopWebServer_radio:
  "netif_sta (stopWebServer s) = netif_sta s" "netif_ap (stopWebServer s) = netif_ap s"
  "wifi_mode (stopWebServer s) = wifi_mode s"
  by (simp_all add: wifi_defs Let_def)

lemma startProvisioning_radio:
  assumes "startProvisioning env s = Inr s'"
  shows "wifi_mode s' = WIFI_MODE_AP \<and> netif_ap s' \<and> \<not> netif_sta s' \<and> wifi_started s' \<and> wifi_initialized s'"
  using assms
  by (auto simp: startProvisioning_def ESP_ERROR_CHECK_def Let_def stopWifi_radio startWebServer_radio split: if_splits)

lemma eventHandler_radio:
  "netif_sta (snd (eventHandler e s)) = netif_sta s" "netif_ap (snd (eventHandler e s)) = netif_ap s"
  "wifi_mode (snd (eventHandler e s)) = wifi_mode s"
  by (cases e; simp)+

lemma wait_radio:
  "netif_sta (snd (xEventGroupWaitBits evs s)) = netif_sta s
   \<and> netif_ap (snd (xEventGroupWaitBits evs s)) = netif_ap s
   \<and> wifi_mode (snd (xEventGroupWaitBits evs s)) = wifi_mode s"
  by (induction evs arbitrary: s) (simp_all add: eventHandler_radio)

lemma initialize_radio:
  "initialize env s = Inr s' \<Longrightarrow>
     netif_sta s' = netif_sta s \<and> netif_ap s' = netif_ap s \<and> wifi_mode s' = wifi_mode s"
  by (auto simp: initialize_def ESP_ERROR_CHECK_def split: if_splits)

lemma other_calls_radio:
  "netif_sta (snd (saveCredentials env ssid pw s)) = netif_sta s"
  "netif_ap (snd (saveCredentials env ssid pw s)) = netif_ap s"
  "wifi_mode (snd (saveCredentials env ssid pw s)) = wifi_mode s"
  "netif_sta (clearCredentialsAndRestart env s) = netif_sta s"
  "netif_ap (clearCredentialsAndRestart env s) = netif_ap s"
  "wifi_mode (clearCredentialsAndRestart env s) = wifi_mode s"
  "netif_sta (snd (snd (connectPostHandler env req s))) = netif_sta s"
  "netif_ap (snd (snd (connectPostHandler env req s))) = netif_ap s"
  "wifi_mode (snd (snd (connectPostHandler env req s))) = wifi_mode s"
  "netif_sta (snd (snd (resetGetHandler env s))) = netif_sta s"
  "netif_ap (snd (snd (resetGetHandler env s))) = netif_ap s"
  "wifi_mode (snd (snd (resetGetHandler env s))) = wifi_mode s"
  by (simp_all add: store_defs Let_def split_def)

lemma start_radio:
  assumes "start env evs s = Inr s'" "radio_ok s"
  shows "radio_ok s'"
  using assms(1)
proof (cases rule: start_cases)
  case (no_credentials s0)
  from startProvisioning_radio[OF no_credentials(3)] show ?thesis
    by (simp add: radio_ok_def)
next
  case (connected s0 ssid pass r s1)
  have "radio_ok s0"
    using initialize_radio[OF connected(1)] assms(2) by (simp add: radio_ok_def)
  with connectToWifi_radio[OF connected(3)] have "radio_ok s1"
    by (auto simp: radio_ok_def)
  then have "radio_ok (snd (xEventGroupWaitBits evs s1))"
    using wait_radio[of evs s1] by (simp add: radio_ok_def)
  then show ?thesis
    unfolding connected(5) by (simp add: radio_ok_def startWebServer_radio)
next
  case (failed s0 ssid pass r s1)
  from startProvisioning_radio[OF failed(5)] show ?thesis
    by (simp add: radio_ok_def)
qed

lemma call_step_radio:
  assumes "call_step c s = Inr s'" "radio_ok s"
  shows "radio_ok s'"
proof (cases c)
  case (Start env evs)
  with assms show ?thesis
    using start_radio by simp
next
  case (Deliver e)
  with assms show ?thesis
    by (auto simp: radio_ok_def eventHandler_radio)
next
  case (ConnectToWifi env ssid pw)
  with assms obtain r where "connectToWifi env ssid pw s = Inr (r, s')"
    by (auto split: sum.splits)
  from connectToWifi_radio[OF this] assms(2) show ?thesis
    by (auto simp: radio_ok_def)
next
  case (StartProvisioning env)
  with assms have "startProvisioning env s = Inr s'"
    by simp
  from startProvisioning_radio[OF this] show ?thesis
    by (simp add: radio_ok_def)
next
  case StopWifi
  with assms show ?thesis
    by (auto simp: radio_ok_def stopWifi_radio)
next
  case (StartWebServer env b)
  with assms show ?thesis
    by (auto simp: radio_ok_def startWebServer_radio)
next
  case StopWebServer
  with assms show ?thesis
    by (auto simp: radio_ok_def stopWebServer_radio)
next
  case (SaveCredentials env ssid pw)
  with assms show ?thesis
    by (auto simp: radio_ok_def other_calls_radio)
next
  case (ClearCredentialsAndRestart env)
  with assms show ?thesis
    by (auto simp: radio_ok_def other_calls_radio)
next
  case (ConnectPost env req)
  with assms show ?thesis
    by (auto simp: radio_ok_def other_calls_radio)
next
  case (ResetGet env)
  with assms show ?thesis
    by (auto simp: radio_ok_def other_calls_radio)
qed

lemma exec_radio:
  "exec cs s = Inr s' \<Longrightarrow> radio_ok s \<Longrightarrow> radio_ok s'"
proof (induction cs arbitrary: s)
  case Nil
  then show ?case by simp
next
  case (Cons c cs)
  then show ?case
    by (auto split: sum.splits dest: call_step_radio)
qed

lemma connectToWifi_stops_first:
  "ssid \<noteq> [] \<Longrightarrow> connectToWifi env ssid pw (stopWifi s) = connectToWifi env ssid pw s"
  by (simp add: connectToWifi_def stopWifi_idem)

lemma startProvisioning_stops_first:
  "startProvisioning env (stopWifi s) = startProvisioning env s"
  by (simp add: startProvisioning_def stopWifi_idem)

subsection \<open>The event flags during the wait\<close>


lemma wait_returns_group:
  "fst (xEventGroupWaitBits evs s) = m_wifi_event_group (snd (xEventGroupWaitBits evs s))"
  by (induction evs arbitrary: s) simp_all

lemma wait_flag_set:
  "m_wifi_event_group s AND (WIFI_CONNECTED_BIT OR WIFI_FAIL_BIT) \<noteq> 0 \<Longrightarrow>
     xEventGroupWaitBits evs s = (m_wifi_event_group s, s)"
  by (cases evs) simp_all



lemma connectToWifi_bits:
  "connectToWifi env ssid pw s = Inr (r, s') \<Longrightarrow> m_wifi_event_group s' = m_wifi_event_group s"
  by (auto simp: wifi_defs Let_def split: if_splits)

lemma startProvisioning_bits:
  "startProvisioning env s = Inr s' \<Longrightarrow> m_wifi_event_group s' = m_wifi_event_group s"
  by (auto simp: wifi_defs Let_def split: if_splits)

lemma startWebServer_bits: "m_wifi_event_group (startWebServer env b s) = m_wifi_event_group s"
  by (simp add: wifi_defs Let_def)

subsection \<open>The flags and the connection status at the end of the wait\<close>

lemma flag_clear_parts:
  fixes w :: EventBits_t
  assumes "w AND (WIFI_CONNECTED_BIT OR WIFI_FAIL_BIT) = 0"
  shows "w AND WIFI_CONNECTED_BIT = 0" "w AND WIFI_FAIL_BIT = 0"
proof -
  have "w AND WIFI_CONNECTED_BIT OR w AND WIFI_FAIL_BIT = 0"
    using assms by (simp add: word_ao_dist2)
  then show "w AND WIFI_CONNECTED_BIT = 0" "w AND WIFI_FAIL_BIT = 0"
    by (simp_all add: or_eq_0_iff)
qed

lemma connected_nonzero: "WIFI_CONNECTED_BIT \<noteq> 0"
  by (simp add: WIFI_CONNECTED_BIT_def)

lemma fail_nonzero: "WIFI_FAIL_BIT \<noteq> 0"
  by (simp add: WIFI_FAIL_BIT_def)

lemma fail_AND_connected: "WIFI_FAIL_BIT AND WIFI_CONNECTED_BIT = 0"
  by (simp add: WIFI_CONNECTED_BIT_def WIFI_FAIL_BIT_def)

lemma wait_connected:
  assumes "m_wifi_event_group s AND (WIFI_CONNECTED_BIT OR WIFI_FAIL_BIT) = 0" "\<not> m_is_connected s"
  shows "m_is_connected (snd (xEventGroupWaitBits evs s))
           = (fst (xEventGroupWaitBits evs s) AND WIFI_CONNECTED_BIT \<noteq> 0)"
  using assms
proof (induction evs arbitrary: s)
  case Nil
  then show ?case
    by (simp add: flag_clear_parts)
next
  case (Cons e evs)
  note c = flag_clear_parts[OF Cons.prems(1)]
  show ?case
  proof (cases e)
    case WIFI_EVENT_STA_START
    with Cons show ?thesis by simp
  next
    case WIFI_EVENT_OTHER
    with Cons show ?thesis by simp
  next
    case (IP_EVENT_STA_GOT_IP a)
    let ?s1 = "snd (eventHandler e s)"
    have "m_wifi_event_group ?s1 AND (WIFI_CONNECTED_BIT OR WIFI_FAIL_BIT) \<noteq> 0"
      using IP_EVENT_STA_GOT_IP Cons.prems(1) by (simp add: word_ao_dist connected_nonzero)
    from wait_flag_set[OF this, of evs] Cons.prems(1)
    have w: "xEventGroupWaitBits (e # evs) s = (m_wifi_event_group ?s1, ?s1)"
      by simp
    have "m_wifi_event_group ?s1 AND WIFI_CONNECTED_BIT = WIFI_CONNECTED_BIT"
      using IP_EVENT_STA_GOT_IP by simp
    moreover have "m_is_connected ?s1"
      using IP_EVENT_STA_GOT_IP by simp
    ultimately show ?thesis
      unfolding w using connected_nonzero by simp
  next
    case WIFI_EVENT_STA_DISCONNECTED
    show ?thesis
    proof (cases "m_retry_num s < MAX_RETRY")
      case True
      with WIFI_EVENT_STA_DISCONNECTED Cons show ?thesis by simp
    next
      case False
      let ?s1 = "snd (eventHandler e s)"
      have "m_wifi_event_group ?s1 AND (WIFI_CONNECTED_BIT OR WIFI_FAIL_BIT) \<noteq> 0"
        using WIFI_EVENT_STA_DISCONNECTED False Cons.prems(1) by (simp add: word_ao_dist fail_nonzero)
      from wait_flag_set[OF this, of evs] WIFI_EVENT_STA_DISCONNECTED False Cons.prems(1) show ?thesis
        by (simp add: word_ao_dist c fail_AND_connected)
    qed
  qed
qed

lemma initialize_frame:
  "initialize env s = Inr s' \<Longrightarrow> s' = s\<lparr>handlers_registered := True\<rparr>"
  by (auto simp: initialize_def ESP_ERROR_CHECK_def split: if_splits)

lemma connectToWifi_connected:
  "connectToWifi env ssid pw s = Inr (r, s') \<Longrightarrow> m_is_connected s' = m_is_connected s"
  by (auto simp: wifi_defs Let_def split: if_splits)

lemma startProvisioning_connected:
  "startProvisioning env s = Inr s' \<Longrightarrow> m_is_connected s' = m_is_connected s"
  by (auto simp: wifi_defs Let_def split: if_splits)

lemma startWebServer_connected: "m_is_connected (startWebServer env b s) = m_is_connected s"
  by (simp add: wifi_defs Let_def)


subsection \<open>The example devices\<close>

text \<open>The example devices are what the model computes.\<close>

lemmas run_defs = start_def initialize_def loadCredentials_def nvs_get_str_def wifi_defs
  sdk_ok_def WifiManager_def c_str_def NUL_def NVS_KEY_WIFI_SSID_def NVS_KEY_WIFI_PASS_def
  WIFI_CONNECTED_BIT_def WIFI_FAIL_BIT_def MAX_RETRY_def PROV_AP_SSID_def PROV_AP_PASS_def
  PROV_AP_MAX_CONN_def ip4_str_def ip4_byte_def dec_u8_def digit_def
  provisioning_uris_def operational_uris_def warm_events_def

lemma warm_boot: "start sdk_ok warm_events (WifiManager home_network) = Inr connected_device"
  by (simp add: run_defs home_network_def connected_device_def Let_def)

lemma cold_boot: "start sdk_ok [] (WifiManager Map.empty) = Inr provisioning_device"
  by (simp add: run_defs provisioning_device_def Let_def)

lemma connection_lost:
  "snd (run_events (replicate 6 WIFI_EVENT_STA_DISCONNECTED) connected_device) = disconnected_device"
  by (simp add: replicate_6 connected_device_def disconnected_device_def WifiManager_def
        MAX_RETRY_def WIFI_FAIL_BIT_def)

lemma run_connection_lost:
  "exec (Start sdk_ok warm_events # map Deliver (replicate 6 WIFI_EVENT_STA_DISCONNECTED))
     (WifiManager home_network) = Inr disconnected_device"
proof -
  have "exec (map Deliver (replicate 6 WIFI_EVENT_STA_DISCONNECTED)) connected_device
          = Inr disconnected_device"
    by (simp only: exec_Deliver connection_lost)
  then show ?thesis
    by (simp only: exec.simps call_step.simps warm_boot sum.case)
qed

lemma station_after_provisioning:
  "connectToWifi sdk_ok ''HomeNet'' ''hunter2'' provisioning_device = Inr (ESP_OK, station_device)"
  by (simp add: run_defs provisioning_device_def station_device_def Let_def)

lemma provisioning_after_station:
  "startProvisioning sdk_ok connected_device = Inr reprovisioned_device"
  by (simp add: run_defs connected_device_def reprovisioned_device_def Let_def)

subsection \<open>Saving and loading credentials\<close>

lemma c_str_id: "NUL \<notin> set xs \<Longrightarrow> c_str xs = xs"
  by (auto simp: c_str_def)

lemma c_str_idem: "c_str (c_str xs) = c_str xs"
  by (simp add: c_str_def)

lemma keys_distinct: "NVS_KEY_WIFI_SSID \<noteq> NVS_KEY_WIFI_PASS"
  by (simp add: NVS_KEY_WIFI_SSID_def NVS_KEY_WIFI_PASS_def)

lemma saveCredentials_ok:
  assumes "nvs_open_r env = ESP_OK" "nvs_commit_r env = ESP_OK"
  shows "saveCredentials env ssid password s
           = (ESP_OK, s\<lparr>nvs := (nvs s)(NVS_KEY_WIFI_SSID \<mapsto> c_str ssid, NVS_KEY_WIFI_PASS \<mapsto> c_str password)\<rparr>)"
  using assms by (simp add: saveCredentials_def)

lemma loadCredentials_ok:
  assumes "nvs_open_r env = ESP_OK" "nvs_get_str_r env NVS_KEY_WIFI_SSID = ESP_OK"
    "nvs_get_str_r env NVS_KEY_WIFI_PASS = ESP_OK"
  shows "loadCredentials env s x y =
           (case nvs s NVS_KEY_WIFI_SSID of
              None \<Rightarrow> (ESP_ERR_NVS_NOT_FOUND, x, y)
            | Some v \<Rightarrow> (ESP_OK, c_str v, case nvs s NVS_KEY_WIFI_PASS of None \<Rightarrow> [] | Some p \<Rightarrow> c_str p))"
  using assms by (simp add: loadCredentials_def nvs_get_str_def split: option.splits)

subsection \<open>The query parser and the POST handler\<close>

















section \<open>The retry policy of the event handler\<close>

text \<open>
  Claim C1, as the code has it. From a freshly constructed manager, \<open>n\<close> consecutive
  disconnects with no address event in between leave the retry counter at \<open>min n 5\<close>;
  the first five are each answered by \<open>esp_wifi_connect\<close> and none of them signals the
  fail flag; the sixth and every later disconnect signals it, so the flag has been signalled
  \<open>n - 5\<close> times and is set exactly when \<open>n\<close> exceeds five.
\<close>

theorem fail_signalled_from_sixth_disconnect:
  "unat (m_retry_num (snd (run_events (replicate n WIFI_EVENT_STA_DISCONNECTED) (WifiManager nv))))
     = min n 5
   \<and> count_list (fst (run_events (replicate n WIFI_EVENT_STA_DISCONNECTED) (WifiManager nv)))
        esp_wifi_connect = min n 5
   \<and> count_list (fst (run_events (replicate n WIFI_EVENT_STA_DISCONNECTED) (WifiManager nv)))
        (xEventGroupSetBits WIFI_FAIL_BIT) = n - 5
   \<and> (m_wifi_event_group (snd (run_events (replicate n WIFI_EVENT_STA_DISCONNECTED) (WifiManager nv)))
        AND WIFI_FAIL_BIT \<noteq> 0) = (5 < n)"
proof -
  have "unat (m_retry_num (WifiManager nv)) + 5 = 5"
    by (simp add: WifiManager_def)
  from disconnects_run[OF this, of n] have
    r: "unat (m_retry_num (snd (run_events (replicate n WIFI_EVENT_STA_DISCONNECTED) (WifiManager nv))))
          = 5 - (5 - n)"
    and c: "fst (run_events (replicate n WIFI_EVENT_STA_DISCONNECTED) (WifiManager nv))
          = replicate (min n 5) esp_wifi_connect @ replicate (n - 5) (xEventGroupSetBits WIFI_FAIL_BIT)"
    and b: "m_wifi_event_group (snd (run_events (replicate n WIFI_EVENT_STA_DISCONNECTED) (WifiManager nv)))
          = (if 5 < n then m_wifi_event_group (WifiManager nv) OR WIFI_FAIL_BIT
             else m_wifi_event_group (WifiManager nv))"
    by simp_all
  have z: "m_wifi_event_group (WifiManager nv) = 0"
    by (simp add: WifiManager_def)
  have m: "5 - (5 - n) = min n 5"
    by arith
  show ?thesis
    unfolding r c b z by (simp add: m count_list_replicate_if WIFI_FAIL_BIT_def)
qed

theorem fail_signalled_from_sixth_disconnect_witness:
  "unat (m_retry_num (snd (run_events (replicate 7 WIFI_EVENT_STA_DISCONNECTED) (WifiManager Map.empty))))
     = 5
   \<and> count_list (fst (run_events (replicate 7 WIFI_EVENT_STA_DISCONNECTED) (WifiManager Map.empty)))
        esp_wifi_connect = 5
   \<and> count_list (fst (run_events (replicate 7 WIFI_EVENT_STA_DISCONNECTED) (WifiManager Map.empty)))
        (xEventGroupSetBits WIFI_FAIL_BIT) = 2
   \<and> m_wifi_event_group (snd (run_events (replicate 7 WIFI_EVENT_STA_DISCONNECTED) (WifiManager Map.empty)))
        AND WIFI_FAIL_BIT \<noteq> 0"
  using fail_signalled_from_sixth_disconnect[of 7 Map.empty] by simp

text \<open>
  The claim as the specification states it fails: after five consecutive disconnects the
  fail flag has not been signalled and is not set, and after seven it has been signalled
  twice, not once.
\<close>

theorem five_disconnects_do_not_signal_fail:
  "count_list (fst (run_events (replicate 5 WIFI_EVENT_STA_DISCONNECTED) (WifiManager Map.empty)))
     (xEventGroupSetBits WIFI_FAIL_BIT) = 0
   \<and> m_wifi_event_group (snd (run_events (replicate 5 WIFI_EVENT_STA_DISCONNECTED) (WifiManager Map.empty)))
       AND WIFI_FAIL_BIT = 0
   \<and> count_list (fst (run_events (replicate 7 WIFI_EVENT_STA_DISCONNECTED) (WifiManager Map.empty)))
     (xEventGroupSetBits WIFI_FAIL_BIT) = 2"
  by (simp add: replicate_5 replicate_7 WifiManager_def MAX_RETRY_def WIFI_FAIL_BIT_def)

text \<open>
  Claim C4, as the code has it. An address event sets the retry counter to zero in every
  state. Of the \<open>n\<close> consecutive disconnects that follow it, the first five are answered
  by a reconnect and do not signal the fail flag; the sixth and every later one signals it.
\<close>

theorem retry_counter_reset_by_address:
  "m_retry_num (snd (eventHandler (IP_EVENT_STA_GOT_IP a) s)) = 0
   \<and> unat (m_retry_num (snd (run_events (replicate n WIFI_EVENT_STA_DISCONNECTED)
                                (snd (eventHandler (IP_EVENT_STA_GOT_IP a) s))))) = min n 5
   \<and> count_list (fst (run_events (replicate n WIFI_EVENT_STA_DISCONNECTED)
                         (snd (eventHandler (IP_EVENT_STA_GOT_IP a) s))))
        esp_wifi_connect = min n 5
   \<and> count_list (fst (run_events (replicate n WIFI_EVENT_STA_DISCONNECTED)
                         (snd (eventHandler (IP_EVENT_STA_GOT_IP a) s))))
        (xEventGroupSetBits WIFI_FAIL_BIT) = n - 5"
proof -
  let ?s1 = "snd (eventHandler (IP_EVENT_STA_GOT_IP a) s)"
  have z: "m_retry_num ?s1 = 0"
    by simp
  then have "unat (m_retry_num ?s1) + 5 = 5"
    by simp
  from disconnects_run[OF this, of n] have
    r: "unat (m_retry_num (snd (run_events (replicate n WIFI_EVENT_STA_DISCONNECTED) ?s1)))
          = 5 - (5 - n)"
    and c: "fst (run_events (replicate n WIFI_EVENT_STA_DISCONNECTED) ?s1)
          = replicate (min n 5) esp_wifi_connect @ replicate (n - 5) (xEventGroupSetBits WIFI_FAIL_BIT)"
    by simp_all
  have m: "5 - (5 - n) = min n 5"
    by arith
  show ?thesis
    unfolding r c using z by (simp add: m count_list_replicate_if)
qed

theorem retry_counter_reset_by_address_witness:
  "m_retry_num (snd (eventHandler (IP_EVENT_STA_GOT_IP 0x2A01A8C0)
                      (snd (eventHandler WIFI_EVENT_STA_DISCONNECTED (WifiManager Map.empty))))) = 0
   \<and> count_list (fst (run_events (replicate 6 WIFI_EVENT_STA_DISCONNECTED)
                         (snd (eventHandler (IP_EVENT_STA_GOT_IP 0x2A01A8C0)
                                (snd (eventHandler WIFI_EVENT_STA_DISCONNECTED (WifiManager Map.empty)))))))
        (xEventGroupSetBits WIFI_FAIL_BIT) = 1"
  using retry_counter_reset_by_address[of "0x2A01A8C0"
          "snd (eventHandler WIFI_EVENT_STA_DISCONNECTED (WifiManager Map.empty))" 6]
  by simp

text \<open>
  The scenario of the specification fails: a disconnect, an address event and five more
  disconnects do not signal the fail flag, and it is not set afterwards.
\<close>

theorem reset_then_five_disconnects_do_not_signal_fail:
  "count_list (fst (run_events ([WIFI_EVENT_STA_DISCONNECTED, IP_EVENT_STA_GOT_IP 0x2A01A8C0]
                                @ replicate 5 WIFI_EVENT_STA_DISCONNECTED) (WifiManager Map.empty)))
     (xEventGroupSetBits WIFI_FAIL_BIT) = 0
   \<and> m_wifi_event_group (snd (run_events ([WIFI_EVENT_STA_DISCONNECTED, IP_EVENT_STA_GOT_IP 0x2A01A8C0]
                                @ replicate 5 WIFI_EVENT_STA_DISCONNECTED) (WifiManager Map.empty)))
       AND WIFI_FAIL_BIT = 0"
  by (simp add: replicate_5 WifiManager_def MAX_RETRY_def WIFI_FAIL_BIT_def WIFI_CONNECTED_BIT_def)

section \<open>Invariants of the runs\<close>

text \<open>
  Claim C9. In every state that a run reaches from a freshly constructed manager the retry
  counter is at most \<open>MAX_RETRY = 5\<close>. The counter is zero after construction; a
  disconnect increments it only when it is strictly below \<open>MAX_RETRY\<close> and leaves it
  alone otherwise; an address event sets it to zero; the other events leave it alone.
\<close>

theorem retry_counter_bounded:
  assumes "exec cs (WifiManager nv) = Inr s"
  shows "m_retry_num s \<le> MAX_RETRY \<and> unat (m_retry_num s) \<le> 5
       \<and> m_retry_num (WifiManager nv) = 0
       \<and> m_retry_num (snd (eventHandler WIFI_EVENT_STA_DISCONNECTED s))
           = (if m_retry_num s < MAX_RETRY then m_retry_num s + 1 else m_retry_num s)
       \<and> m_retry_num (snd (eventHandler (IP_EVENT_STA_GOT_IP a) s)) = 0
       \<and> m_retry_num (snd (eventHandler WIFI_EVENT_STA_START s)) = m_retry_num s
       \<and> m_retry_num (snd (eventHandler WIFI_EVENT_OTHER s)) = m_retry_num s"
proof -
  have "m_retry_num (WifiManager nv) \<le> MAX_RETRY"
    by (simp add: WifiManager_def)
  from exec_retry[OF assms this] have b: "m_retry_num s \<le> MAX_RETRY" .
  then have "unat (m_retry_num s) \<le> 5"
    by (simp add: word_le_nat_alt unat_MAX_RETRY)
  with b show ?thesis
    by (simp add: WifiManager_def)
qed

theorem retry_counter_bounded_witness:
  "exec (Start sdk_ok warm_events # map Deliver (replicate 6 WIFI_EVENT_STA_DISCONNECTED))
     (WifiManager home_network) = Inr disconnected_device
   \<and> m_retry_num disconnected_device \<le> MAX_RETRY
   \<and> unat (m_retry_num disconnected_device) \<le> 5
   \<and> m_retry_num (snd (eventHandler WIFI_EVENT_STA_DISCONNECTED disconnected_device)) = 5
   \<and> m_retry_num (snd (eventHandler (IP_EVENT_STA_GOT_IP 0x2A01A8C0) disconnected_device)) = 0"
  using run_connection_lost retry_counter_bounded[OF run_connection_lost, of "0x2A01A8C0"]
  by (simp add: disconnected_device_def MAX_RETRY_def)

text \<open>
  Claim C2 does not hold of the code: \<open>m_current_ip\<close> is assigned by the address event
  and by nothing else. The device boots with stored credentials, obtains the address
  192.168.1.42, then loses the network; the sixth disconnect clears \<open>m_is_connected\<close>,
  and \<open>getIpAddress\<close> still returns the old address.
\<close>

theorem address_kept_after_connection_lost:
  "exec (Start sdk_ok warm_events # map Deliver (replicate 6 WIFI_EVENT_STA_DISCONNECTED))
     (WifiManager home_network) = Inr disconnected_device
   \<and> isConnected disconnected_device = False
   \<and> getIpAddress disconnected_device = ''192.168.1.42''"
  using run_connection_lost
  by (simp add: isConnected_def getIpAddress_def disconnected_device_def connected_device_def)

text \<open>
  Claim C10. \<open>startWebServer\<close> returns the device unchanged when a server handle exists;
  \<open>stopWebServer\<close> is idempotent, leaves no handle, and changes nothing when there is
  none. In every state that a run reaches, the registered endpoints are none, those of the
  provisioning configuration, or those of the operational configuration, never a mixture.
\<close>

theorem server_configurations_never_mixed:
  "(m_server s \<noteq> None \<longrightarrow> startWebServer env b s = s)
   \<and> stopWebServer (stopWebServer s) = stopWebServer s
   \<and> m_server (stopWebServer s) = None
   \<and> (m_server t = None \<longrightarrow> stopWebServer t = t)
   \<and> (exec cs (WifiManager nv) = Inr s' \<longrightarrow>
        endpoints s' = {}
        \<or> endpoints s' = {(HTTP_GET, ''/''), (HTTP_POST, ''/connect''), (HTTP_GET, ''/favicon.ico'')}
        \<or> endpoints s' = {(HTTP_GET, ''/reset''), (HTTP_GET, ''/favicon.ico'')})"
proof -
  have a: "m_server s \<noteq> None \<longrightarrow> startWebServer env b s = s"
    by (simp add: startWebServer_def)
  have b: "stopWebServer (stopWebServer s) = stopWebServer s"
    by (simp add: stopWebServer_def)
  have c: "m_server (stopWebServer s) = None"
    by (simp add: stopWebServer_def)
  have d: "m_server t = None \<longrightarrow> stopWebServer t = t"
    by (simp add: stopWebServer_def)
  have e: "endpoints s' = {}
        \<or> endpoints s' = {(HTTP_GET, ''/''), (HTTP_POST, ''/connect''), (HTTP_GET, ''/favicon.ico'')}
        \<or> endpoints s' = {(HTTP_GET, ''/reset''), (HTTP_GET, ''/favicon.ico'')}"
    if r: "exec cs (WifiManager nv) = Inr s'"
  proof -
    have "server_ok (WifiManager nv)"
      by (simp add: server_ok_def WifiManager_def)
    from exec_server[OF r this] show ?thesis
      unfolding server_ok_def
      using endpoints_None endpoints_provisioning endpoints_operational by blast
  qed
  from a b c d e show ?thesis
    by blast
qed

theorem server_configurations_never_mixed_witness:
  "m_server provisioning_device \<noteq> None
   \<and> startWebServer sdk_ok False provisioning_device = provisioning_device
   \<and> m_server (WifiManager Map.empty) = None
   \<and> stopWebServer (WifiManager Map.empty) = WifiManager Map.empty
   \<and> exec [Start sdk_ok []] (WifiManager Map.empty) = Inr provisioning_device
   \<and> endpoints provisioning_device
       = {(HTTP_GET, ''/''), (HTTP_POST, ''/connect''), (HTTP_GET, ''/favicon.ico'')}"
proof -
  have h: "exec [Start sdk_ok []] (WifiManager Map.empty) = Inr provisioning_device"
    by (simp add: cold_boot)
  have e: "endpoints provisioning_device
       = {(HTTP_GET, ''/''), (HTTP_POST, ''/connect''), (HTTP_GET, ''/favicon.ico'')}"
    by (simp add: endpoints_def provisioning_device_def provisioning_uris_def)
  show ?thesis
    using h e
      server_configurations_never_mixed[where s = provisioning_device and env = sdk_ok
        and b = False and t = "WifiManager Map.empty" and cs = "[Start sdk_ok []]"
        and nv = Map.empty and s' = provisioning_device]
    by (simp add: provisioning_device_def WifiManager_def)
qed

text \<open>
  Claim C8. In every state that a run reaches, the station and the access-point interface
  do not both exist and the driver is not in the combined mode. \<open>connectToWifi\<close> (when
  the SSID is not empty, else it returns \<open>ESP_ERR_INVALID_ARG\<close> and changes nothing) and
  \<open>startProvisioning\<close> begin with \<open>stopWifi\<close>: their result is the one they have
  on the stopped device; when they return, exactly the interface of the new mode exists.
  \<open>stopWifi\<close> leaves no server, the driver stopped and deinitialised, and neither
  interface, and it is idempotent.
\<close>

theorem mode_switch_stops_first:
  "(exec cs (WifiManager nv) = Inr s \<longrightarrow> \<not> (netif_sta s \<and> netif_ap s) \<and> wifi_mode s \<noteq> WIFI_MODE_APSTA)
   \<and> (ssid \<noteq> [] \<longrightarrow> connectToWifi env ssid pw t = connectToWifi env ssid pw (stopWifi t))
   \<and> (connectToWifi env ssid pw t = Inr (r, t') \<longrightarrow>
        (ssid = [] \<and> r = ESP_ERR_INVALID_ARG \<and> t' = t)
        \<or> (ssid \<noteq> [] \<and> r = ESP_OK \<and> wifi_mode t' = WIFI_MODE_STA \<and> netif_sta t' \<and> \<not> netif_ap t'))
   \<and> startProvisioning env u = startProvisioning env (stopWifi u)
   \<and> (startProvisioning env u = Inr u' \<longrightarrow> wifi_mode u' = WIFI_MODE_AP \<and> netif_ap u' \<and> \<not> netif_sta u')
   \<and> m_server (stopWifi v) = None \<and> \<not> wifi_started (stopWifi v) \<and> \<not> wifi_initialized (stopWifi v)
   \<and> wifi_mode (stopWifi v) = WIFI_MODE_NULL \<and> \<not> netif_sta (stopWifi v) \<and> \<not> netif_ap (stopWifi v)
   \<and> stopWifi (stopWifi v) = stopWifi v"
proof -
  have a: "\<not> (netif_sta s \<and> netif_ap s) \<and> wifi_mode s \<noteq> WIFI_MODE_APSTA"
    if r: "exec cs (WifiManager nv) = Inr s"
  proof -
    have "radio_ok (WifiManager nv)"
      by (simp add: radio_ok_def WifiManager_def)
    from exec_radio[OF r this] show ?thesis
      by (simp add: radio_ok_def)
  qed
  have b: "(ssid = [] \<and> r = ESP_ERR_INVALID_ARG \<and> t' = t)
        \<or> (ssid \<noteq> [] \<and> r = ESP_OK \<and> wifi_mode t' = WIFI_MODE_STA \<and> netif_sta t' \<and> \<not> netif_ap t')"
    if "connectToWifi env ssid pw t = Inr (r, t')"
    using connectToWifi_radio[OF that] by blast
  have c: "wifi_mode u' = WIFI_MODE_AP \<and> netif_ap u' \<and> \<not> netif_sta u'"
    if "startProvisioning env u = Inr u'"
    using startProvisioning_radio[OF that] by blast
  show ?thesis
    using a b c
    by (simp add: connectToWifi_stops_first startProvisioning_stops_first stopWifi_radio
          stopWifi_idem m_server_stopWifi)
qed

theorem mode_switch_stops_first_witness:
  "exec [Start sdk_ok [], ConnectToWifi sdk_ok ''HomeNet'' ''hunter2''] (WifiManager Map.empty)
     = Inr station_device
   \<and> \<not> (netif_sta station_device \<and> netif_ap station_device)
   \<and> wifi_mode station_device \<noteq> WIFI_MODE_APSTA
   \<and> ''HomeNet'' \<noteq> []
   \<and> connectToWifi sdk_ok ''HomeNet'' ''hunter2'' provisioning_device = Inr (ESP_OK, station_device)
   \<and> connectToWifi sdk_ok ''HomeNet'' ''hunter2'' (stopWifi provisioning_device)
       = Inr (ESP_OK, station_device)
   \<and> wifi_mode station_device = WIFI_MODE_STA \<and> netif_sta station_device
   \<and> startProvisioning sdk_ok connected_device = Inr reprovisioned_device
   \<and> startProvisioning sdk_ok (stopWifi connected_device) = Inr reprovisioned_device
   \<and> wifi_mode reprovisioned_device = WIFI_MODE_AP \<and> \<not> netif_sta reprovisioned_device"
proof -
  have h: "exec [Start sdk_ok [], ConnectToWifi sdk_ok ''HomeNet'' ''hunter2''] (WifiManager Map.empty)
     = Inr station_device"
    by (simp add: cold_boot station_after_provisioning)
  show ?thesis
    using h station_after_provisioning provisioning_after_station
      mode_switch_stops_first[where cs = "[Start sdk_ok [], ConnectToWifi sdk_ok ''HomeNet'' ''hunter2'']"
        and nv = Map.empty and s = station_device and ssid = "''HomeNet''" and pw = "''hunter2''"
        and env = sdk_ok and t = provisioning_device and r = ESP_OK and t' = station_device
        and u = connected_device and u' = reprovisioned_device and v = connected_device]
    by simp
qed

section \<open>The event flags\<close>



section \<open>The endpoints after boot\<close>

text \<open>
  Claim C7, as the code has it. When \<open>start\<close> returns on a freshly constructed manager
  and \<open>httpd_start\<close> has succeeded, the registered endpoints are exactly
  GET /reset and GET /favicon.ico if the device is connected, and exactly GET /, POST /connect
  and GET /favicon.ico otherwise; when \<open>httpd_start\<close> has failed no endpoint is
  registered in either mode. The device is connected exactly when the connected flag is set;
  otherwise the radio is in access-point mode with the access-point interface only.
\<close>

theorem endpoints_by_boot_mode:
  assumes "start env evs (WifiManager nv) = Inr s"
  shows "endpoints s =
           (if httpd_start_r env \<noteq> ESP_OK then {}
            else if isConnected s then {(HTTP_GET, ''/reset''), (HTTP_GET, ''/favicon.ico'')}
            else {(HTTP_GET, ''/''), (HTTP_POST, ''/connect''), (HTTP_GET, ''/favicon.ico'')})
       \<and> isConnected s = (m_wifi_event_group s AND WIFI_CONNECTED_BIT \<noteq> 0)
       \<and> (if isConnected s then wifi_mode s \<noteq> WIFI_MODE_AP \<and> \<not> netif_ap s
           else wifi_mode s = WIFI_MODE_AP \<and> netif_ap s \<and> \<not> netif_sta s)"
  using assms
proof (cases rule: start_cases)
  case (no_credentials s0)
  have s0: "s0 = (WifiManager nv)\<lparr>handlers_registered := True\<rparr>"
    using no_credentials(1) by (rule initialize_frame)
  have 1: "\<not> isConnected s"
    using startProvisioning_connected[OF no_credentials(3)] s0 by (simp add: isConnected_def WifiManager_def)
  have 2: "m_wifi_event_group s = 0"
    using startProvisioning_bits[OF no_credentials(3)] s0 by (simp add: WifiManager_def)
  have 3: "m_server s = (if httpd_start_r env \<noteq> ESP_OK then None else Some provisioning_uris)"
    using no_credentials(3) by (rule startProvisioning_server)
  show ?thesis
    using 1 2 3 startProvisioning_radio[OF no_credentials(3)]
    by (simp add: endpoints_None endpoints_provisioning)
next
  case (connected s0 ssid pass r s1)
  have s0: "s0 = (WifiManager nv)\<lparr>handlers_registered := True\<rparr>"
    using connected(1) by (rule initialize_frame)
  let ?s2 = "snd (xEventGroupWaitBits evs s1)"
  have b1: "m_wifi_event_group s1 = 0"
    using connectToWifi_bits[OF connected(3)] s0 by (simp add: WifiManager_def)
  have c1: "\<not> m_is_connected s1"
    using connectToWifi_connected[OF connected(3)] s0 by (simp add: WifiManager_def)
  have c2: "m_is_connected ?s2"
    using wait_connected[of s1 evs] b1 c1 connected(4) by simp
  have 1: "isConnected s"
    unfolding connected(5) using c2 by (simp add: isConnected_def startWebServer_connected)
  have 2: "m_wifi_event_group s AND WIFI_CONNECTED_BIT \<noteq> 0"
    unfolding connected(5) using connected(4) wait_returns_group[of evs s1]
    by (simp add: startWebServer_bits)
  have "m_server s1 = None"
    using connectToWifi_server[OF connected(3)] s0 by (simp add: WifiManager_def)
  then have 3: "m_server s = (if httpd_start_r env \<noteq> ESP_OK then None else Some operational_uris)"
    unfolding connected(5) by (simp add: startWebServer_server wait_server)
  have "wifi_mode s1 \<noteq> WIFI_MODE_AP \<and> \<not> netif_ap s1"
    using connectToWifi_radio[OF connected(3)] s0 by (auto simp: WifiManager_def)
  then have 4: "wifi_mode s \<noteq> WIFI_MODE_AP \<and> \<not> netif_ap s"
    unfolding connected(5) using wait_radio[of evs s1] by (simp add: startWebServer_radio)
  show ?thesis
    using 1 2 3 4 by (simp add: endpoints_None endpoints_operational)
next
  case (failed s0 ssid pass r s1)
  have s0: "s0 = (WifiManager nv)\<lparr>handlers_registered := True\<rparr>"
    using failed(1) by (rule initialize_frame)
  let ?s2 = "snd (xEventGroupWaitBits evs s1)"
  have b1: "m_wifi_event_group s1 = 0"
    using connectToWifi_bits[OF failed(3)] s0 by (simp add: WifiManager_def)
  have c1: "\<not> m_is_connected s1"
    using connectToWifi_connected[OF failed(3)] s0 by (simp add: WifiManager_def)
  have c2: "\<not> m_is_connected ?s2"
    using wait_connected[of s1 evs] b1 c1 failed(4) by simp
  have 1: "\<not> isConnected s"
    using startProvisioning_connected[OF failed(5)] c2 by (simp add: isConnected_def)
  have 2: "m_wifi_event_group s AND WIFI_CONNECTED_BIT = 0"
    using startProvisioning_bits[OF failed(5)] failed(4) wait_returns_group[of evs s1] by simp
  have 3: "m_server s = (if httpd_start_r env \<noteq> ESP_OK then None else Some provisioning_uris)"
    using failed(5) by (rule startProvisioning_server)
  show ?thesis
    using 1 2 3 startProvisioning_radio[OF failed(5)]
    by (simp add: endpoints_None endpoints_provisioning)
qed

theorem endpoints_by_boot_mode_witness:
  "start sdk_ok warm_events (WifiManager home_network) = Inr connected_device
   \<and> isConnected connected_device
   \<and> endpoints connected_device = {(HTTP_GET, ''/reset''), (HTTP_GET, ''/favicon.ico'')}
   \<and> start sdk_ok [] (WifiManager Map.empty) = Inr provisioning_device
   \<and> \<not> isConnected provisioning_device
   \<and> endpoints provisioning_device
       = {(HTTP_GET, ''/''), (HTTP_POST, ''/connect''), (HTTP_GET, ''/favicon.ico'')}
   \<and> wifi_mode provisioning_device = WIFI_MODE_AP"
proof -
  have c: "isConnected connected_device" "\<not> isConnected provisioning_device"
    by (simp_all add: isConnected_def connected_device_def provisioning_device_def WifiManager_def)
  have o: "httpd_start_r sdk_ok = ESP_OK"
    by (simp add: sdk_ok_def)
  show ?thesis
    using c o warm_boot cold_boot
      endpoints_by_boot_mode[OF warm_boot] endpoints_by_boot_mode[OF cold_boot]
    by simp
qed

text \<open>
  The claim as the specification states it fails when the server cannot be started: the
  device boots with empty storage, enters provisioning (the radio is an access point), and
  no endpoint is registered.
\<close>

theorem provisioning_without_endpoints:
  "start (sdk_ok\<lparr>httpd_start_r := ESP_FAIL\<rparr>) [] (WifiManager Map.empty)
     = Inr (provisioning_device\<lparr>m_server := None\<rparr>)
   \<and> wifi_mode (provisioning_device\<lparr>m_server := None\<rparr>) = WIFI_MODE_AP
   \<and> endpoints (provisioning_device\<lparr>m_server := None\<rparr>) = {}"
  by (simp add: run_defs provisioning_device_def endpoints_def Let_def)

section \<open>The credential store\<close>

text \<open>
  Claim C6. The strings are C strings, as the storage holds them and as the POST handler
  passes them, and the storage opens, reads and commits. Then \<open>saveCredentials\<close> returns
  \<open>ESP_OK\<close> and a following \<open>loadCredentials\<close> returns \<open>(ssid, password)\<close> byte
  for byte (in general each string up to its first NUL byte, which is all of a C string);
  an empty password comes back empty. \<open>loadCredentials\<close> succeeds exactly when the SSID
  key exists, and with an SSID and no password key it returns the empty password.
\<close>

theorem credentials_round_trip:
  assumes "nvs_open_r env = ESP_OK" "nvs_commit_r env = ESP_OK"
    and "nvs_open_r env' = ESP_OK" "nvs_get_str_r env' NVS_KEY_WIFI_SSID = ESP_OK"
        "nvs_get_str_r env' NVS_KEY_WIFI_PASS = ESP_OK"
  shows "fst (saveCredentials env ssid password s) = ESP_OK
       \<and> loadCredentials env' (snd (saveCredentials env ssid password s)) x y
           = (ESP_OK, c_str ssid, c_str password)
       \<and> (NUL \<notin> set ssid \<and> NUL \<notin> set password \<longrightarrow>
            loadCredentials env' (snd (saveCredentials env ssid password s)) x y
              = (ESP_OK, ssid, password))
       \<and> (fst (loadCredentials env' t x y) = ESP_OK) = (nvs t NVS_KEY_WIFI_SSID \<noteq> None)
       \<and> (nvs t NVS_KEY_WIFI_SSID = Some v \<and> nvs t NVS_KEY_WIFI_PASS = None \<longrightarrow>
            loadCredentials env' t x y = (ESP_OK, c_str v, []))"
proof -
  have l: "loadCredentials env' (snd (saveCredentials env ssid password s)) x y
           = (ESP_OK, c_str ssid, c_str password)"
    by (simp add: saveCredentials_ok[OF assms(1,2)] loadCredentials_ok[OF assms(3,4,5)]
          keys_distinct c_str_idem)
  show ?thesis
    using l
    by (auto simp: saveCredentials_ok[OF assms(1,2)] loadCredentials_ok[OF assms(3,4,5)]
          c_str_id split: option.splits)
qed

theorem credentials_round_trip_witness:
  "nvs_open_r sdk_ok = ESP_OK \<and> nvs_commit_r sdk_ok = ESP_OK
   \<and> nvs_get_str_r sdk_ok NVS_KEY_WIFI_SSID = ESP_OK \<and> nvs_get_str_r sdk_ok NVS_KEY_WIFI_PASS = ESP_OK
   \<and> NUL \<notin> set ''Open'' \<and> NUL \<notin> set []
   \<and> loadCredentials sdk_ok (snd (saveCredentials sdk_ok ''Open'' [] (WifiManager Map.empty))) [] []
       = (ESP_OK, ''Open'', [])
   \<and> nvs (WifiManager [NVS_KEY_WIFI_SSID \<mapsto> ''Foo'']) NVS_KEY_WIFI_SSID = Some ''Foo''
   \<and> nvs (WifiManager [NVS_KEY_WIFI_SSID \<mapsto> ''Foo'']) NVS_KEY_WIFI_PASS = None
   \<and> loadCredentials sdk_ok (WifiManager [NVS_KEY_WIFI_SSID \<mapsto> ''Foo'']) [] [] = (ESP_OK, ''Foo'', [])"
proof -
  have e: "nvs_open_r sdk_ok = ESP_OK" "nvs_commit_r sdk_ok = ESP_OK"
    "nvs_open_r sdk_ok = ESP_OK"
    "nvs_get_str_r sdk_ok NVS_KEY_WIFI_SSID = ESP_OK" "nvs_get_str_r sdk_ok NVS_KEY_WIFI_PASS = ESP_OK"
    by (simp_all add: sdk_ok_def)
  have n: "NUL \<notin> set ''Open''" "NUL \<notin> set []"
    by (simp_all add: NUL_def)
  have k: "nvs (WifiManager [NVS_KEY_WIFI_SSID \<mapsto> ''Foo'']) NVS_KEY_WIFI_SSID = Some ''Foo''"
    "nvs (WifiManager [NVS_KEY_WIFI_SSID \<mapsto> ''Foo'']) NVS_KEY_WIFI_PASS = None"
    by (simp_all add: WifiManager_def keys_distinct[symmetric])
  have c: "c_str ''Foo'' = ''Foo''" "c_str ''Open'' = ''Open''" "c_str [] = []"
    by (simp_all add: c_str_def NUL_def)
  show ?thesis
    using e n k c
      credentials_round_trip[OF e, where ssid = "''Open''" and password = "[]" and s = "WifiManager Map.empty"
        and x = "[]" and y = "[]" and t = "WifiManager [NVS_KEY_WIFI_SSID \<mapsto> ''Foo'']" and v = "''Foo''"]
    by simp
qed

section \<open>The POST handler\<close>




end
